theory Spec2Isabelle
  imports Main "HOL-Library.Multiset"
begin

section \<open>The zone index of the tracing framework (wtf.analysis.db.ZoneIndex)\<close>

text \<open>
  The source is \<^verbatim>\<open>src/wtf/analysis/db/zoneindex.js\<close>. A ZoneIndex is an EventList that
  keeps only the events of one zone and rebuilds the tree of scopes those events describe.
  Events and scopes are JavaScript objects that are shared by reference and mutated in
  place, so the model keeps them in an explicit store and passes the store along.
\<close>

subsection \<open>Events\<close>

type_synonym zone_ref = nat
type_synonym event_type = nat
type_synonym scope_ref = nat

text \<open>
  Modelled from the spec: the classes wtf.analysis.Event and wtf.analysis.ScopeEvent are
  not among the sources. By section 3 of the spec a ScopeEvent is an event that owns the
  freshly created scope it opens; the source reads that scope as \<^verbatim>\<open>e.scope\<close> under the
  non-null cast \<^verbatim>\<open>!wtf.analysis.Scope\<close>. For every other event \<^verbatim>\<open>e.scope\<close> is a mutable
  association that lives in the store. \<open>event_class\<close> is what
  \<^verbatim>\<open>e instanceof wtf.analysis.ScopeEvent\<close> tests.
\<close>

datatype event_class = ScopeEvent scope_ref | PlainEvent

text \<open>
  Modelled from the spec: an event (section 3) is a record with the fields \<^verbatim>\<open>zone\<close>,
  \<^verbatim>\<open>time\<close> and \<^verbatim>\<open>eventType\<close>, which the index only reads. Zones and event types are
  compared by identity (\<^verbatim>\<open>==\<close>), so they are plain identifiers here; \<open>ev_id\<close> is the
  identity of the event object itself. Timestamps are JavaScript numbers of which the
  index uses the order alone; they are integers here.
\<close>

record event =
  ev_id :: nat
  zone :: zone_ref
  time :: int
  eventType :: event_type
  cls :: event_class

subsection \<open>Scopes and the store\<close>

text \<open>
  Modelled from the spec: the class wtf.analysis.Scope is not among the sources. The spec
  (section 3 and 4.2) gives a scope a parent back-reference, an ordered sequence of child
  scopes and an optional leave event, with the three operations below.
\<close>

record scope =
  parent :: "scope_ref option"
  children :: "scope_ref list"
  leaveEvent :: "event option"

text \<open>
  The store: every scope object by its reference, and the \<^verbatim>\<open>scope\<close> field of every
  event that is not a ScopeEvent, by the identity of the event. \<open>None\<close> is \<^verbatim>\<open>null\<close>.
\<close>

record heap =
  scopes :: "scope_ref \<Rightarrow> scope"
  scope_of :: "nat \<Rightarrow> scope_ref option"

text \<open>
  Modelled from the spec: Scope.addChild (section 4.2) "appends scope to this scope's
  child sequence and sets its parent back-reference". The two writes happen one after the
  other, so that a scope added to itself gets both.
\<close>

definition addChild :: "scope_ref \<Rightarrow> scope_ref \<Rightarrow> heap \<Rightarrow> heap" where
  "addChild p c h =
     (let s1 = (scopes h)(p := (scopes h p)\<lparr>children := children (scopes h p) @ [c]\<rparr>);
          s2 = s1(c := (s1 c)\<lparr>parent := Some p\<rparr>)
      in h\<lparr>scopes := s2\<rparr>)"

text \<open>
  Modelled from the spec: Scope.setLeaveEvent (section 4.2) "records the closing event for
  this scope"; a second call overwrites.
\<close>

definition setLeaveEvent :: "scope_ref \<Rightarrow> event \<Rightarrow> heap \<Rightarrow> heap" where
  "setLeaveEvent c e h = h\<lparr>scopes := (scopes h)(c := (scopes h c)\<lparr>leaveEvent := Some e\<rparr>)\<rparr>"

text \<open>
  Modelled from the spec: Scope.getParent (section 4.2) "returns the parent, or none if
  this is a top-level scope".
\<close>

definition getParent :: "scope_ref \<Rightarrow> heap \<Rightarrow> scope_ref option" where
  "getParent c h = parent (scopes h c)"

text \<open>
  Modelled from the spec: Event.setScope, the "mutable scope setter" of section 6, writes
  the \<^verbatim>\<open>scope\<close> field of the event.
\<close>

definition setScope :: "event \<Rightarrow> scope_ref option \<Rightarrow> heap \<Rightarrow> heap" where
  "setScope e sc h = h\<lparr>scope_of := (scope_of h)(ev_id e := sc)\<rparr>"

text \<open>
  Modelled from the spec: reading \<^verbatim>\<open>e.scope\<close> gives the owned scope of a ScopeEvent and
  the stored association of any other event.
\<close>

definition getScope :: "heap \<Rightarrow> event \<Rightarrow> scope_ref option" where
  "getScope h e = (case cls e of ScopeEvent sc \<Rightarrow> Some sc | PlainEvent \<Rightarrow> scope_of h (ev_id e))"

subsection \<open>The base class EventList\<close>

text \<open>
  Modelled from the spec: the class wtf.analysis.db.EventList is not among the sources.
  The spec (sections 2 and 4.1) describes it as an append-only, time-ordered sequence of
  events with the batch hooks below: beginInserting "enters batch-insert mode",
  insertEvent "appends one event", endInserting "finalizes the batch" so that the list
  is in time order again, here by a stable sort on the timestamp.
\<close>

record event_list =
  events :: "event list"
  insertingEvents :: bool

text \<open>Modelled from the spec: EventList.beginInserting (section 4.1) "enters batch-insert mode".\<close>

definition EventList_beginInserting :: "'a event_list_scheme \<Rightarrow> 'a event_list_scheme" where
  "EventList_beginInserting l = l\<lparr>insertingEvents := True\<rparr>"

text \<open>Modelled from the spec: EventList.insertEvent (section 4.1) "appends one event".\<close>

definition EventList_insertEvent :: "event \<Rightarrow> 'a event_list_scheme \<Rightarrow> 'a event_list_scheme" where
  "EventList_insertEvent e l = l\<lparr>events := events l @ [e]\<rparr>"

text \<open>
  Modelled from the spec: EventList.endInserting (section 4.1) "finalizes the batch": batch
  mode is left and the list is put in time order; events of equal time keep their order.
\<close>

definition EventList_endInserting :: "'a event_list_scheme \<Rightarrow> 'a event_list_scheme" where
  "EventList_endInserting l = l\<lparr>events := sort_key time (events l), insertingEvents := False\<rparr>"

text \<open>
  Modelled from the spec: EventList.getLastEventTime is "the last time present" in the
  list, the greatest timestamp it holds. For a list without events the model answers 0,
  the value the constructor of the index gives its own boundary \<^verbatim>\<open>lastAddEventTime_\<close>.
\<close>

definition getLastEventTime :: "'a event_list_scheme \<Rightarrow> int" where
  "getLastEventTime l =
     (case events l of [] \<Rightarrow> 0 | e # es \<Rightarrow> fold (\<lambda>x t. max (time x) t) es (time e))"

text \<open>
  Modelled from the spec: when a scope encloses a time is not among the sources either.
  The scope opened by a ScopeEvent encloses \<open>t\<close> when it was entered no later than \<open>t\<close>
  and has a leave event no earlier than \<open>t\<close> (the spec's time range from enter to leave,
  section 3).
\<close>

definition encloses :: "heap \<Rightarrow> int \<Rightarrow> event \<Rightarrow> bool" where
  "encloses h t e =
     (case cls e of
        PlainEvent \<Rightarrow> False
      | ScopeEvent sc \<Rightarrow>
          time e \<le> t \<and> (case leaveEvent (scopes h sc) of None \<Rightarrow> False | Some l \<Rightarrow> t \<le> time l))"

text \<open>
  Modelled from the spec: EventList.findEnclosingScope is "a lookup by time against the
  already-finalized tree" for "the scope that structurally encloses this timestamp"
  (section 4.3). Of the scopes of the list's ScopeEvents that enclose \<open>t\<close> it answers the
  innermost, the one entered last, and \<^verbatim>\<open>null\<close> when there is none.
\<close>

definition findEnclosingScope :: "'a event_list_scheme \<Rightarrow> heap \<Rightarrow> int \<Rightarrow> scope_ref option" where
  "findEnclosingScope l h t =
     (case filter (encloses h t) (events l) of
        [] \<Rightarrow> None
      | c # cs \<Rightarrow> getScope h (fold (\<lambda>e b. if time b \<le> time e then e else b) cs c))"

subsection \<open>ZoneIndex\<close>

text \<open>
  The fields of the constructor (source lines 29 to 75) on top of those of the base class.
  \<open>scopeLeave\<close> is the cached \<^verbatim>\<open>eventTypes_.scopeLeave\<close>: what the trace listener answers
  for the name \<^verbatim>\<open>wtf.scope.leave\<close>, possibly \<^verbatim>\<open>null\<close>. The private fields are written
  without their trailing underscore, and \<^verbatim>\<open>zone_\<close> is \<open>index_zone\<close>.
\<close>

record zone_index = event_list +
  index_zone :: zone_ref
  scopeLeave :: "event_type option"
  currentScope :: "scope_ref option"
  lastAddEventTime :: int
  pendingOutOfOrderEvents :: "event list"

definition ZoneIndex :: "(string \<Rightarrow> event_type option) \<Rightarrow> zone_ref \<Rightarrow> zone_index" where
  "ZoneIndex getEventType zn =
     \<lparr>events = [], insertingEvents = False,
      index_zone = zn,
      scopeLeave = getEventType ''wtf.scope.leave'',
      currentScope = None,
      lastAddEventTime = 0,
      pendingOutOfOrderEvents = []\<rparr>"

definition getZone :: "zone_index \<Rightarrow> zone_ref" where
  "getZone z = index_zone z"

text \<open>
  Each of the three overridden methods calls the method of the base class that it
  overrides. The base class is not among the sources, so the method is first written
  over an arbitrary base method \<open>base\<close>, which gets the index as it is at the moment of
  the call, and then taken at the base method as modelled above.

  Source lines 91 to 95: the base call comes first, then the two assignments.
\<close>

definition beginInserting_with :: "(zone_index \<Rightarrow> zone_index) \<Rightarrow> zone_index \<Rightarrow> zone_index" where
  "beginInserting_with base z =
     (let z1 = base z;
          z2 = z1\<lparr>currentScope := None\<rparr>
      in z2\<lparr>lastAddEventTime := getLastEventTime z2\<rparr>)"

definition beginInserting :: "zone_index \<Rightarrow> zone_index" where
  "beginInserting = beginInserting_with EventList_beginInserting"

text \<open>
  Source lines 107 to 133, the work of insertEvent on an event of the index's own zone,
  before the base call: an event older than \<open>lastAddEventTime\<close> is queued; any other moves
  \<open>lastAddEventTime\<close> and is classified as scope enter, scope leave or plain event.
\<close>

definition classify :: "event \<Rightarrow> zone_index \<times> heap \<Rightarrow> zone_index \<times> heap" where
  "classify e s =
     (case s of (z, h) \<Rightarrow>
        if time e < lastAddEventTime z then
          (z\<lparr>pendingOutOfOrderEvents := pendingOutOfOrderEvents z @ [e]\<rparr>, h)
        else
          (let z1 = z\<lparr>lastAddEventTime := time e\<rparr> in
           case cls e of
             ScopeEvent sc \<Rightarrow>
               (z1\<lparr>currentScope := Some sc\<rparr>,
                (case currentScope z1 of Some c \<Rightarrow> addChild c sc h | None \<Rightarrow> h))
           | PlainEvent \<Rightarrow>
               if Some (eventType e) = scopeLeave z1 then
                 (let h1 = setScope e (currentScope z1) h in
                  case currentScope z1 of
                    Some c \<Rightarrow>
                      (let h2 = setLeaveEvent c e h1
                       in (z1\<lparr>currentScope := getParent c h2\<rparr>, h2))
                  | None \<Rightarrow> (z1, h1))
               else
                 (case currentScope z1 of
                    Some c \<Rightarrow> (z1, setScope e (Some c) h)
                  | None \<Rightarrow> (z1, h))))"

text \<open>
  Source lines 101 to 140: the base call is the last statement inside the test of the
  zone, so nothing at all happens for an event of another zone.
\<close>

definition insertEvent_with ::
  "(event \<Rightarrow> zone_index \<Rightarrow> zone_index) \<Rightarrow> event \<Rightarrow> zone_index \<times> heap \<Rightarrow> zone_index \<times> heap" where
  "insertEvent_with base e s =
     (case s of (z, h) \<Rightarrow>
        if zone e = index_zone z then
          (case classify e (z, h) of (z', h') \<Rightarrow> (base e z', h'))
        else (z, h))"

definition insertEvent :: "event \<Rightarrow> zone_index \<times> heap \<Rightarrow> zone_index \<times> heap" where
  "insertEvent = insertEvent_with EventList_insertEvent"

text \<open>
  Source lines 151 to 170, the loop of endInserting over the queued events. The first
  argument is the loop's local variable \<^verbatim>\<open>currentScope\<close>; the index is only read (its
  list by findEnclosingScope, its cached leave type), the store is updated.
\<close>

fun reconcile :: "zone_index \<Rightarrow> scope_ref option \<Rightarrow> event list \<Rightarrow> heap \<Rightarrow> heap" where
  "reconcile z cur [] h = h"
| "reconcile z cur (e # es) h =
     (case cls e of
        ScopeEvent sc \<Rightarrow>
          reconcile z (Some sc) es
            (case findEnclosingScope z h (time e) of
               Some parentScope \<Rightarrow> addChild parentScope sc h
             | None \<Rightarrow> h)
      | PlainEvent \<Rightarrow>
          if Some (eventType e) = scopeLeave z then
            (case cur of
               Some c \<Rightarrow> reconcile z None es (setLeaveEvent c e (setScope e cur h))
             | None \<Rightarrow> reconcile z cur es (setScope e cur h))
          else reconcile z cur es (setScope e cur h))"

text \<open>Source lines 146 to 174: the cursor is reset, the queue worked off and emptied, then the base call.\<close>

definition endInserting_with ::
  "(zone_index \<Rightarrow> zone_index) \<Rightarrow> zone_index \<times> heap \<Rightarrow> zone_index \<times> heap" where
  "endInserting_with base s =
     (case s of (z, h) \<Rightarrow>
        (let z1 = z\<lparr>currentScope := None\<rparr>;
             h1 = reconcile z1 None (pendingOutOfOrderEvents z1) h;
             z2 = z1\<lparr>pendingOutOfOrderEvents := []\<rparr>
         in (base z2, h1)))"

definition endInserting :: "zone_index \<times> heap \<Rightarrow> zone_index \<times> heap" where
  "endInserting = endInserting_with EventList_endInserting"

text \<open>
  One batch as section 5 of the spec prescribes it: beginInserting, the insertEvent calls
  in order, endInserting.
\<close>

definition insertEvents :: "event list \<Rightarrow> zone_index \<times> heap \<Rightarrow> zone_index \<times> heap" where
  "insertEvents es s = fold insertEvent es s"

definition batch :: "event list \<Rightarrow> zone_index \<times> heap \<Rightarrow> zone_index \<times> heap" where
  "batch es s = (case s of (z, h) \<Rightarrow> endInserting (insertEvents es (beginInserting z, h)))"

text \<open>A store in which no scope has a parent, a child or a leave event and no event a scope.\<close>

definition empty_heap :: heap where
  "empty_heap = \<lparr>scopes = (\<lambda>_. \<lparr>parent = None, children = [], leaveEvent = None\<rparr>),
                 scope_of = (\<lambda>_. None)\<rparr>"

text \<open>
  Which events of a sequence are queued, told from zones and timestamps alone: the second
  argument is the boundary \<open>lastAddEventTime\<close>, which only an event that is not queued moves.
\<close>

fun deferred :: "zone_ref \<Rightarrow> int \<Rightarrow> event list \<Rightarrow> event list" where
  "deferred zn t [] = []"
| "deferred zn t (e # es) =
     (if zone e = zn then
        (if time e < t then e # deferred zn t es else deferred zn (time e) es)
      else deferred zn t es)"

subsection \<open>Concrete events and a concrete index for the examples\<close>

text \<open>A trace listener that knows the leave type as number 1, and the index it gives for zone 7.\<close>

definition listener0 :: "string \<Rightarrow> event_type option" where
  "listener0 name = (if name = ''wtf.scope.leave'' then Some 1 else None)"

definition index0 :: zone_index where
  "index0 = ZoneIndex listener0 7"

definition mk_enter :: "zone_ref \<Rightarrow> nat \<Rightarrow> int \<Rightarrow> scope_ref \<Rightarrow> event" where
  "mk_enter zn i t sc = \<lparr>ev_id = i, zone = zn, time = t, eventType = 0, cls = ScopeEvent sc\<rparr>"

definition mk_leave :: "zone_ref \<Rightarrow> nat \<Rightarrow> int \<Rightarrow> event" where
  "mk_leave zn i t = \<lparr>ev_id = i, zone = zn, time = t, eventType = 1, cls = PlainEvent\<rparr>"

definition mk_leaf :: "zone_ref \<Rightarrow> nat \<Rightarrow> int \<Rightarrow> event" where
  "mk_leaf zn i t = \<lparr>ev_id = i, zone = zn, time = t, eventType = 2, cls = PlainEvent\<rparr>"

text \<open>
  The index of zone 7 and the store in the middle of its first batch, after the enter of
  scope 1 at time 0 and a plain event at time 5: scope 1 is open and \<open>lastAddEventTime\<close>
  is 5.
\<close>

definition state5 :: "zone_index \<times> heap" where
  "state5 = insertEvents [mk_enter 7 1 0 1, mk_leaf 7 2 5] (beginInserting index0, empty_heap)"

definition index5 :: zone_index where
  "index5 = fst state5"

definition heap5 :: heap where
  "heap5 = snd state5"

text \<open>
  The index of zone 7 and the store at the end of the insertions of a first batch: a
  plain event at time 10, then a scope enter at time 3, a plain event at time 4 and a
  leave at time 5, which are all three queued.
\<close>

definition state10 :: "zone_index \<times> heap" where
  "state10 =
     insertEvents [mk_leaf 7 1 10, mk_enter 7 2 3 2, mk_leaf 7 3 4, mk_leave 7 4 5]
       (beginInserting index0, empty_heap)"

definition index10 :: zone_index where
  "index10 = fst state10"

definition heap10 :: heap where
  "heap10 = snd state10"

text \<open>
  A base beginInserting that makes the order of the calls visible: it enters batch mode only
  when it finds a scope still open.
\<close>

definition open_scope_probe :: "zone_index \<Rightarrow> zone_index" where
  "open_scope_probe z = z\<lparr>insertingEvents := (currentScope z \<noteq> None)\<rparr>"

section \<open>Properties\<close>

subsection \<open>Auxiliary facts\<close>

lemma beginInserting_eq:
  "beginInserting z =
     (let z1 = EventList_beginInserting z;
          z2 = z1\<lparr>currentScope := None\<rparr>
      in z2\<lparr>lastAddEventTime := getLastEventTime z2\<rparr>)"
  by (simp add: beginInserting_def beginInserting_with_def)

lemma insertEvent_eq:
  "insertEvent e s =
     (case s of (z, h) \<Rightarrow>
        if zone e = index_zone z then
          (case classify e (z, h) of (z', h') \<Rightarrow> (EventList_insertEvent e z', h'))
        else (z, h))"
  by (simp add: insertEvent_def insertEvent_with_def)

lemma endInserting_eq:
  "endInserting s =
     (case s of (z, h) \<Rightarrow>
        (let z1 = z\<lparr>currentScope := None\<rparr>;
             h1 = reconcile z1 None (pendingOutOfOrderEvents z1) h;
             z2 = z1\<lparr>pendingOutOfOrderEvents := []\<rparr>
         in (EventList_endInserting z2, h1)))"
  by (simp add: endInserting_def endInserting_with_def)

lemma findEnclosingScope_currentScope [simp]:
  "findEnclosingScope (z\<lparr>currentScope := c\<rparr>) h t = findEnclosingScope z h t"
  by (simp add: findEnclosingScope_def)

lemmas op_defs = batch_def endInserting_eq insertEvents_def insertEvent_eq classify_def
  beginInserting_eq EventList_beginInserting_def EventList_insertEvent_def
  EventList_endInserting_def getLastEventTime_def addChild_def setScope_def setLeaveEvent_def
  getParent_def getScope_def findEnclosingScope_def encloses_def

lemma index5_value:
  "index5 =
     \<lparr>events = [mk_enter 7 1 0 1, mk_leaf 7 2 5], insertingEvents = True,
      index_zone = 7, scopeLeave = Some 1, currentScope = Some 1, lastAddEventTime = 5,
      pendingOutOfOrderEvents = []\<rparr>"
  by (simp add: index5_def state5_def op_defs listener0_def index0_def ZoneIndex_def
      mk_enter_def mk_leaf_def)

lemma heap5_value:
  "heap5 = empty_heap\<lparr>scope_of := (scope_of empty_heap)(2 := Some 1)\<rparr>"
  by (simp add: heap5_def state5_def op_defs listener0_def index0_def ZoneIndex_def
      mk_enter_def mk_leaf_def)

lemma index10_value:
  "index10 =
     \<lparr>events = [mk_leaf 7 1 10, mk_enter 7 2 3 2, mk_leaf 7 3 4, mk_leave 7 4 5],
      insertingEvents = True,
      index_zone = 7, scopeLeave = Some 1, currentScope = None, lastAddEventTime = 10,
      pendingOutOfOrderEvents = [mk_enter 7 2 3 2, mk_leaf 7 3 4, mk_leave 7 4 5]\<rparr>"
  by (simp add: index10_def state10_def op_defs listener0_def index0_def ZoneIndex_def
      mk_enter_def mk_leaf_def mk_leave_def)

lemma heap10_value:
  "heap10 = empty_heap"
  by (simp add: heap10_def state10_def op_defs listener0_def index0_def ZoneIndex_def
      mk_enter_def mk_leaf_def mk_leave_def)

lemmas example_defs = listener0_def index0_def index5_value heap5_value index10_value
  heap10_value ZoneIndex_def mk_enter_def mk_leave_def mk_leaf_def empty_heap_def

lemma insertEvents_Nil [simp]: "insertEvents [] s = s"
  by (simp add: insertEvents_def)

lemma insertEvents_Cons [simp]: "insertEvents (e # es) s = insertEvents es (insertEvent e s)"
  by (simp add: insertEvents_def)

lemma insertEvents_append: "insertEvents (es @ fs) s = insertEvents fs (insertEvents es s)"
  by (simp add: insertEvents_def)

lemma insertEvent_other_zone: "zone e \<noteq> index_zone z \<Longrightarrow> insertEvent e (z, h) = (z, h)"
  by (simp add: insertEvent_eq)

lemma insertEvent_deferred:
  "zone e = index_zone z \<Longrightarrow> time e < lastAddEventTime z \<Longrightarrow>
   insertEvent e (z, h) =
     (z\<lparr>events := events z @ [e], pendingOutOfOrderEvents := pendingOutOfOrderEvents z @ [e]\<rparr>, h)"
  by (simp add: insertEvent_eq classify_def EventList_insertEvent_def)

lemma classify_frame:
  "index_zone (fst (classify e (z, h))) = index_zone z \<and>
   scopeLeave (fst (classify e (z, h))) = scopeLeave z \<and>
   events (fst (classify e (z, h))) = events z \<and>
   insertingEvents (fst (classify e (z, h))) = insertingEvents z"
  by (simp add: classify_def Let_def split: event_class.splits option.splits)

lemma classify_in_order:
  "\<not> time e < lastAddEventTime z \<Longrightarrow>
   lastAddEventTime (fst (classify e (z, h))) = time e \<and>
   pendingOutOfOrderEvents (fst (classify e (z, h))) = pendingOutOfOrderEvents z"
  by (simp add: classify_def Let_def split: event_class.splits option.splits)

lemma insertEvent_frame:
  "index_zone (fst (insertEvent e (z, h))) = index_zone z \<and>
   scopeLeave (fst (insertEvent e (z, h))) = scopeLeave z \<and>
   insertingEvents (fst (insertEvent e (z, h))) = insertingEvents z"
  using classify_frame [of e z h]
  by (cases "classify e (z, h)") (simp add: insertEvent_eq EventList_insertEvent_def)

lemma insertEvent_events:
  "events (fst (insertEvent e (z, h))) =
     (if zone e = index_zone z then events z @ [e] else events z)"
  using classify_frame [of e z h]
  by (cases "classify e (z, h)") (simp add: insertEvent_eq EventList_insertEvent_def)

lemma insertEvent_lastAddEventTime:
  "lastAddEventTime (fst (insertEvent e (z, h))) =
     (if zone e = index_zone z \<and> \<not> time e < lastAddEventTime z then time e
      else lastAddEventTime z)"
  using classify_in_order [of e z h]
  by (auto simp add: insertEvent_eq EventList_insertEvent_def classify_def split: prod.splits)

lemma insertEvent_pending:
  "pendingOutOfOrderEvents (fst (insertEvent e (z, h))) =
     (if zone e = index_zone z \<and> time e < lastAddEventTime z
      then pendingOutOfOrderEvents z @ [e] else pendingOutOfOrderEvents z)"
  using classify_in_order [of e z h]
  by (auto simp add: insertEvent_eq EventList_insertEvent_def classify_def split: prod.splits)

lemma insertEvents_index_zone:
  "index_zone (fst (insertEvents es (z, h))) = index_zone z"
proof (induction es arbitrary: z h)
  case Nil
  show ?case by simp
next
  case (Cons e es)
  obtain z' h' where s: "insertEvent e (z, h) = (z', h')" by (cases "insertEvent e (z, h)")
  have "index_zone z' = index_zone z" using insertEvent_frame [of e z h] s by simp
  with Cons.IH [of z' h'] s show ?case by simp
qed

lemma insertEvents_events:
  "events (fst (insertEvents es (z, h))) = events z @ filter (\<lambda>e. zone e = index_zone z) es"
proof (induction es arbitrary: z h)
  case Nil
  show ?case by simp
next
  case (Cons e es)
  obtain z' h' where s: "insertEvent e (z, h) = (z', h')" by (cases "insertEvent e (z, h)")
  have zn: "index_zone z' = index_zone z" using insertEvent_frame [of e z h] s by simp
  have ev: "events z' = (if zone e = index_zone z then events z @ [e] else events z)"
    using insertEvent_events [of e z h] s by simp
  show ?case using Cons.IH [of z' h'] s zn ev by simp
qed

lemma insertEvents_pending:
  "pendingOutOfOrderEvents (fst (insertEvents es (z, h))) =
     pendingOutOfOrderEvents z @ deferred (index_zone z) (lastAddEventTime z) es"
proof (induction es arbitrary: z h)
  case Nil
  show ?case by simp
next
  case (Cons e es)
  obtain z' h' where s: "insertEvent e (z, h) = (z', h')" by (cases "insertEvent e (z, h)")
  have zn: "index_zone z' = index_zone z" using insertEvent_frame [of e z h] s by simp
  have la: "lastAddEventTime z' =
     (if zone e = index_zone z \<and> \<not> time e < lastAddEventTime z then time e
      else lastAddEventTime z)"
    using insertEvent_lastAddEventTime [of e z h] s by simp
  have pe: "pendingOutOfOrderEvents z' =
     (if zone e = index_zone z \<and> time e < lastAddEventTime z
      then pendingOutOfOrderEvents z @ [e] else pendingOutOfOrderEvents z)"
    using insertEvent_pending [of e z h] s by simp
  show ?case using Cons.IH [of z' h'] s zn la pe by simp
qed

subsection \<open>Events of other zones\<close>

text \<open>
  Claim C4. An event whose zone is not the zone of the index changes nothing: the index
  (its list of events, \<open>currentScope\<close>, \<open>lastAddEventTime\<close>, the queue of pending events)
  and the store, which holds the scope of every event, are the same after the call, and
  so they are after any number of such calls.
\<close>
theorem other_zone_events_are_invisible:
  assumes "\<forall>e \<in> set es. zone e \<noteq> index_zone z"
  shows "insertEvents es (z, h) = (z, h)"
  using assms
proof (induction es)
  case Nil
  show ?case by simp
next
  case (Cons e es)
  then have "insertEvent e (z, h) = (z, h)" by (simp add: insertEvent_other_zone)
  with Cons show ?case by simp
qed

theorem other_zone_events_are_invisible_witness:
  "zone (mk_leaf 8 1 4) \<noteq> index_zone index0 \<and>
   zone (mk_enter 8 2 5 1) \<noteq> index_zone index0 \<and>
   zone (mk_leave 9 3 6) \<noteq> index_zone index0 \<and>
   insertEvents [mk_leaf 8 1 4, mk_enter 8 2 5 1, mk_enter 8 2 5 1, mk_leave 9 3 6]
     (index0, empty_heap) = (index0, empty_heap)"
  using other_zone_events_are_invisible
    [of "[mk_leaf 8 1 4, mk_enter 8 2 5 1, mk_enter 8 2 5 1, mk_leave 9 3 6]" index0 empty_heap]
  by (simp add: example_defs)

subsection \<open>The boundary between in-order and out-of-order events\<close>

text \<open>
  Claim C8. The test for out-of-order events is strict: an event of the index's zone
  whose time equals \<open>lastAddEventTime\<close> is not queued. It is appended to the list and
  classified at once against \<open>currentScope\<close>: a scope enter becomes the current scope,
  as a child of the former one if there was one; a leave gets the current scope, closes
  it and moves the cursor to its parent; any other event gets the current scope if one
  is open.
\<close>
theorem equal_time_is_in_order:
  assumes "zone e = index_zone z" and "time e = lastAddEventTime z"
  shows "pendingOutOfOrderEvents (fst (insertEvent e (z, h))) = pendingOutOfOrderEvents z \<and>
         events (fst (insertEvent e (z, h))) = events z @ [e] \<and>
         (case cls e of
            ScopeEvent sc \<Rightarrow>
              currentScope (fst (insertEvent e (z, h))) = Some sc \<and>
              snd (insertEvent e (z, h)) =
                (case currentScope z of Some c \<Rightarrow> addChild c sc h | None \<Rightarrow> h)
          | PlainEvent \<Rightarrow>
              if Some (eventType e) = scopeLeave z then
                getScope (snd (insertEvent e (z, h))) e = currentScope z \<and>
                (\<forall>c. currentScope z = Some c \<longrightarrow>
                   leaveEvent (scopes (snd (insertEvent e (z, h))) c) = Some e \<and>
                   currentScope (fst (insertEvent e (z, h))) = parent (scopes h c))
              else
                currentScope (fst (insertEvent e (z, h))) = currentScope z \<and>
                (\<forall>c. currentScope z = Some c \<longrightarrow>
                   getScope (snd (insertEvent e (z, h))) e = Some c))"
  using assms
  by (simp add: insertEvent_eq classify_def EventList_insertEvent_def Let_def getScope_def
      setScope_def setLeaveEvent_def getParent_def
      split: event_class.splits option.splits)

theorem equal_time_is_in_order_witness:
  "zone (mk_leave 7 3 5) = index_zone index5 \<and>
   time (mk_leave 7 3 5) = lastAddEventTime index5 \<and>
   pendingOutOfOrderEvents (fst (insertEvent (mk_leave 7 3 5) (index5, heap5))) = [] \<and>
   getScope (snd (insertEvent (mk_leave 7 3 5) (index5, heap5))) (mk_leave 7 3 5) = Some 1 \<and>
   leaveEvent (scopes (snd (insertEvent (mk_leave 7 3 5) (index5, heap5))) 1) =
     Some (mk_leave 7 3 5)"
  using equal_time_is_in_order [of "mk_leave 7 3 5" index5 heap5]
  by (simp add: example_defs)

text \<open>
  Claim C9. Queuing an out-of-order event of the index's zone leaves \<open>lastAddEventTime\<close>,
  \<open>currentScope\<close> and the store as they were. Hence which of the later events \<open>es\<close> are
  queued is what \<open>deferred\<close> computes from the boundary before the call, that is from the
  timestamps of the events that were in order.
\<close>
theorem deferring_keeps_boundary_and_cursor:
  assumes "zone e = index_zone z" and "time e < lastAddEventTime z"
  shows "lastAddEventTime (fst (insertEvent e (z, h))) = lastAddEventTime z \<and>
         currentScope (fst (insertEvent e (z, h))) = currentScope z \<and>
         snd (insertEvent e (z, h)) = h \<and>
         pendingOutOfOrderEvents (fst (insertEvents (e # es) (z, h))) =
           pendingOutOfOrderEvents z @ e # deferred (index_zone z) (lastAddEventTime z) es"
proof -
  let ?z' = "z\<lparr>events := events z @ [e],
               pendingOutOfOrderEvents := pendingOutOfOrderEvents z @ [e]\<rparr>"
  have s: "insertEvent e (z, h) = (?z', h)"
    using assms by (rule insertEvent_deferred)
  have "pendingOutOfOrderEvents (fst (insertEvents es (?z', h))) =
          pendingOutOfOrderEvents ?z' @ deferred (index_zone ?z') (lastAddEventTime ?z') es"
    by (rule insertEvents_pending)
  with s show ?thesis by simp
qed

theorem deferring_keeps_boundary_and_cursor_witness:
  "zone (mk_leave 7 3 2) = index_zone index5 \<and>
   time (mk_leave 7 3 2) < lastAddEventTime index5 \<and>
   lastAddEventTime (fst (insertEvent (mk_leave 7 3 2) (index5, heap5))) = 5 \<and>
   currentScope (fst (insertEvent (mk_leave 7 3 2) (index5, heap5))) = Some 1 \<and>
   snd (insertEvent (mk_leave 7 3 2) (index5, heap5)) = heap5 \<and>
   pendingOutOfOrderEvents
     (fst (insertEvents [mk_leave 7 3 2, mk_leaf 7 4 6, mk_leaf 7 5 3] (index5, heap5))) =
     [mk_leave 7 3 2, mk_leaf 7 5 3]"
  using deferring_keeps_boundary_and_cursor
    [of "mk_leave 7 3 2" index5 heap5 "[mk_leaf 7 4 6, mk_leaf 7 5 3]"]
  by (simp add: example_defs)

subsection \<open>Nested scopes arriving in order\<close>

text \<open>
  Claim C5. Four events of the index's zone arrive in order (no timestamp below the one
  before, none below \<open>lastAddEventTime\<close>): enter A, enter B, leave, leave, where A and B
  open two different scopes \<open>a\<close> and \<open>b\<close>. Then \<open>a\<close> is the parent of \<open>b\<close>, \<open>b\<close> is among
  the children of \<open>a\<close>, the first leave is the leave event of \<open>b\<close> and the second the
  leave event of \<open>a\<close>. Nothing is queued.
\<close>
theorem nested_pairs_in_order:
  assumes zones: "zone eA = index_zone z" "zone eB = index_zone z"
      "zone lB = index_zone z" "zone lA = index_zone z"
    and times: "lastAddEventTime z \<le> time eA" "time eA \<le> time eB"
      "time eB \<le> time lB" "time lB \<le> time lA"
    and enters: "cls eA = ScopeEvent a" "cls eB = ScopeEvent b"
    and leaves: "cls lB = PlainEvent" "Some (eventType lB) = scopeLeave z"
      "cls lA = PlainEvent" "Some (eventType lA) = scopeLeave z"
    and distinct_scopes: "a \<noteq> b"
  shows "parent (scopes (snd (insertEvents [eA, eB, lB, lA] (z, h))) b) = Some a \<and>
         b \<in> set (children (scopes (snd (insertEvents [eA, eB, lB, lA] (z, h))) a)) \<and>
         leaveEvent (scopes (snd (insertEvents [eA, eB, lB, lA] (z, h))) b) = Some lB \<and>
         leaveEvent (scopes (snd (insertEvents [eA, eB, lB, lA] (z, h))) a) = Some lA \<and>
         pendingOutOfOrderEvents (fst (insertEvents [eA, eB, lB, lA] (z, h))) =
           pendingOutOfOrderEvents z"
  using assms
  by (simp add: insertEvent_eq classify_def EventList_insertEvent_def Let_def
      addChild_def setScope_def setLeaveEvent_def getParent_def split: option.splits)


theorem nested_pairs_in_order_witness:
  "zone (mk_enter 7 1 0 1) = index_zone index0 \<and> zone (mk_enter 7 2 5 2) = index_zone index0 \<and>
   zone (mk_leave 7 3 6) = index_zone index0 \<and> zone (mk_leave 7 4 9) = index_zone index0 \<and>
   lastAddEventTime index0 \<le> time (mk_enter 7 1 0 1) \<and>
   time (mk_enter 7 1 0 1) \<le> time (mk_enter 7 2 5 2) \<and>
   time (mk_enter 7 2 5 2) \<le> time (mk_leave 7 3 6) \<and>
   time (mk_leave 7 3 6) \<le> time (mk_leave 7 4 9) \<and>
   cls (mk_enter 7 1 0 1) = ScopeEvent 1 \<and> cls (mk_enter 7 2 5 2) = ScopeEvent 2 \<and>
   cls (mk_leave 7 3 6) = PlainEvent \<and> Some (eventType (mk_leave 7 3 6)) = scopeLeave index0 \<and>
   cls (mk_leave 7 4 9) = PlainEvent \<and> Some (eventType (mk_leave 7 4 9)) = scopeLeave index0 \<and>
   (1::nat) \<noteq> 2 \<and>
   parent (scopes (snd (insertEvents
       [mk_enter 7 1 0 1, mk_enter 7 2 5 2, mk_leave 7 3 6, mk_leave 7 4 9]
       (index0, empty_heap))) 2) = Some 1 \<and>
   2 \<in> set (children (scopes (snd (insertEvents
       [mk_enter 7 1 0 1, mk_enter 7 2 5 2, mk_leave 7 3 6, mk_leave 7 4 9]
       (index0, empty_heap))) 1)) \<and>
   leaveEvent (scopes (snd (insertEvents
       [mk_enter 7 1 0 1, mk_enter 7 2 5 2, mk_leave 7 3 6, mk_leave 7 4 9]
       (index0, empty_heap))) 2) = Some (mk_leave 7 3 6) \<and>
   leaveEvent (scopes (snd (insertEvents
       [mk_enter 7 1 0 1, mk_enter 7 2 5 2, mk_leave 7 3 6, mk_leave 7 4 9]
       (index0, empty_heap))) 1) = Some (mk_leave 7 4 9)"
proof -
  have z: "index_zone index0 = 7" "lastAddEventTime index0 = 0" "scopeLeave index0 = Some 1"
    by (simp_all add: example_defs)
  show ?thesis
    using nested_pairs_in_order
      [of "mk_enter 7 1 0 1" index0 "mk_enter 7 2 5 2" "mk_leave 7 3 6" "mk_leave 7 4 9" 1 2
        empty_heap]
    by (simp add: z mk_enter_def mk_leave_def)
qed

subsection \<open>A leave event with no scope open\<close>





subsection \<open>The state after a batch\<close>

lemma endInserting_fields:
  "pendingOutOfOrderEvents (fst (endInserting (z, h))) = [] \<and>
   currentScope (fst (endInserting (z, h))) = None \<and>
   events (fst (endInserting (z, h))) = sort_key time (events z)"
  by (simp add: endInserting_eq EventList_endInserting_def Let_def)

lemma batch_events:
  "events (fst (batch es (z, h))) =
     sort_key time (events z @ filter (\<lambda>e. zone e = index_zone z) es)"
proof -
  obtain z' h' where s: "insertEvents es (beginInserting z, h) = (z', h')"
    by (cases "insertEvents es (beginInserting z, h)")
  have b: "events (beginInserting z) = events z" "index_zone (beginInserting z) = index_zone z"
    by (simp_all add: beginInserting_eq EventList_beginInserting_def Let_def)
  have "events z' = events z @ filter (\<lambda>e. zone e = index_zone z) es"
    using insertEvents_events [of es "beginInserting z" h] s b by simp
  then show ?thesis
    using endInserting_fields [of z' h'] s by (simp add: batch_def)
qed

text \<open>
  Claim C7. After a batch (beginInserting, insertEvent for each event of \<open>es\<close> in turn,
  endInserting) the queue of pending events is empty and \<open>currentScope\<close> is \<^verbatim>\<open>null\<close>. The
  list holds what it held before and, once for each insertion, the events of \<open>es\<close> that
  belong to the zone of the index; so an event of the zone that was inserted once and was
  not in the list before occurs in it exactly once.
\<close>

theorem batch_invariant:
  "pendingOutOfOrderEvents (fst (batch es (z, h))) = [] \<and>
   currentScope (fst (batch es (z, h))) = None \<and>
   mset (events (fst (batch es (z, h)))) =
     mset (events z) + mset (filter (\<lambda>e. zone e = index_zone z) es) \<and>
   (\<forall>e \<in> set es. zone e = index_zone z \<longrightarrow> count_list es e = 1 \<longrightarrow> e \<notin> set (events z) \<longrightarrow>
      count_list (events (fst (batch es (z, h)))) e = 1)"
proof -
  obtain z' h' where s: "insertEvents es (beginInserting z, h) = (z', h')"
    by (cases "insertEvents es (beginInserting z, h)")
  have fields: "pendingOutOfOrderEvents (fst (batch es (z, h))) = []"
    "currentScope (fst (batch es (z, h))) = None"
    using endInserting_fields [of z' h'] s by (simp_all add: batch_def)
  have ms: "mset (events (fst (batch es (z, h)))) =
     mset (events z) + mset (filter (\<lambda>e. zone e = index_zone z) es)"
    by (simp add: batch_events)
  have once: "count_list (events (fst (batch es (z, h)))) e = 1"
    if "e \<in> set es" "zone e = index_zone z" "count_list es e = 1" "e \<notin> set (events z)" for e
  proof -
    have "count (mset (events (fst (batch es (z, h))))) e =
        count (mset (events z)) e + count (mset (filter (\<lambda>e. zone e = index_zone z) es)) e"
      by (simp add: ms)
    also have "count (mset (events z)) e = 0"
      using that(4) by (simp add: count_mset count_list_0_iff)
    also have "count (mset (filter (\<lambda>e. zone e = index_zone z) es)) e = count (mset es) e"
      using that(2) by (simp add: count_mset)
    finally show ?thesis using that(3) by (simp add: count_mset)
  qed
  from fields ms once show ?thesis by blast
qed

theorem batch_invariant_witness:
  "mk_leave 7 3 2 \<in> set [mk_enter 7 1 0 1, mk_leaf 8 5 1, mk_enter 7 2 5 2, mk_leave 7 3 2] \<and>
   zone (mk_leave 7 3 2) = index_zone index0 \<and>
   count_list [mk_enter 7 1 0 1, mk_leaf 8 5 1, mk_enter 7 2 5 2, mk_leave 7 3 2]
     (mk_leave 7 3 2) = 1 \<and>
   mk_leave 7 3 2 \<notin> set (events index0) \<and>
   count_list (events (fst (batch
     [mk_enter 7 1 0 1, mk_leaf 8 5 1, mk_enter 7 2 5 2, mk_leave 7 3 2] (index0, empty_heap))))
     (mk_leave 7 3 2) = 1 \<and>
   pendingOutOfOrderEvents (fst (batch
     [mk_enter 7 1 0 1, mk_leaf 8 5 1, mk_enter 7 2 5 2, mk_leave 7 3 2] (index0, empty_heap))) = [] \<and>
   currentScope (fst (batch
     [mk_enter 7 1 0 1, mk_leaf 8 5 1, mk_enter 7 2 5 2, mk_leave 7 3 2] (index0, empty_heap))) = None"
proof -
  have hyps: "mk_leave 7 3 2 \<in> set [mk_enter 7 1 0 1, mk_leaf 8 5 1, mk_enter 7 2 5 2, mk_leave 7 3 2]"
    "zone (mk_leave 7 3 2) = index_zone index0"
    "count_list [mk_enter 7 1 0 1, mk_leaf 8 5 1, mk_enter 7 2 5 2, mk_leave 7 3 2]
       (mk_leave 7 3 2) = 1"
    "mk_leave 7 3 2 \<notin> set (events index0)"
    by (simp_all add: example_defs)
  from batch_invariant
    [of "[mk_enter 7 1 0 1, mk_leaf 8 5 1, mk_enter 7 2 5 2, mk_leave 7 3 2]" index0 empty_heap]
    hyps show ?thesis
    by blast
qed

subsection \<open>The reconciliation pass of endInserting\<close>

lemma fold_setScope_scopes:
  "scopes (fold (\<lambda>l. setScope l c) ls h) = scopes h"
  by (induction ls arbitrary: h) (simp_all add: setScope_def)

lemma fold_setScope_scope_of:
  "scope_of (fold (\<lambda>l. setScope l c) ls h) i =
     (if i \<in> ev_id ` set ls then c else scope_of h i)"
  by (induction ls arbitrary: h) (auto simp add: setScope_def)

lemma reconcile_plain_run:
  assumes "\<forall>l \<in> set ls. cls l = PlainEvent \<and> Some (eventType l) \<noteq> scopeLeave z"
  shows "reconcile z cur (ls @ rest) h = reconcile z cur rest (fold (\<lambda>l. setScope l cur) ls h)"
  using assms by (induction ls arbitrary: h) simp_all

text \<open>
  Claim C10. Let the queue of pending events begin with a scope enter \<open>e\<close> for whose time
  findEnclosingScope finds no scope, followed by a run \<open>ls\<close> of plain events. endInserting
  still makes the scope \<open>sc\<close> of \<open>e\<close> the local cursor of its loop (as the loop does
  whatever the cursor was before). The scope is attached nowhere: up to the end of the
  run no scope is changed at all, yet every event of the run gets \<open>sc\<close> as its scope. If
  the next queued event is a leave \<open>lv\<close>, it gets \<open>sc\<close> too and becomes the leave event of
  \<open>sc\<close>, and the loop goes on with the cursor cleared; when \<open>lv\<close> ends the queue, that
  leave event is the only change endInserting has made to the scopes.
\<close>

theorem orphan_scope_is_cursor:
  assumes queue: "pendingOutOfOrderEvents z = e # ls @ rest"
    and enter: "cls e = ScopeEvent sc"
    and orphan: "findEnclosingScope z h (time e) = None"
    and plain: "\<forall>l \<in> set ls. cls l = PlainEvent \<and> Some (eventType l) \<noteq> scopeLeave z"
  shows "snd (endInserting (z, h)) =
           reconcile (z\<lparr>currentScope := None\<rparr>) (Some sc) rest
             (fold (\<lambda>l. setScope l (Some sc)) ls h) \<and>
         (\<forall>cur. reconcile (z\<lparr>currentScope := None\<rparr>) cur (e # ls @ rest) h =
            reconcile (z\<lparr>currentScope := None\<rparr>) (Some sc) rest
              (fold (\<lambda>l. setScope l (Some sc)) ls h)) \<and>
         scopes (fold (\<lambda>l. setScope l (Some sc)) ls h) = scopes h \<and>
         (\<forall>l \<in> set ls. getScope (fold (\<lambda>l. setScope l (Some sc)) ls h) l = Some sc) \<and>
         (rest = [] \<longrightarrow>
            scopes (snd (endInserting (z, h))) = scopes h \<and>
            (\<forall>l \<in> set ls. getScope (snd (endInserting (z, h))) l = Some sc)) \<and>
         (\<forall>lv r. rest = lv # r \<longrightarrow> cls lv = PlainEvent \<longrightarrow> Some (eventType lv) = scopeLeave z \<longrightarrow>
            snd (endInserting (z, h)) =
              reconcile (z\<lparr>currentScope := None\<rparr>) None r
                (setLeaveEvent sc lv
                   (setScope lv (Some sc) (fold (\<lambda>l. setScope l (Some sc)) ls h)))) \<and>
         (\<forall>lv. rest = [lv] \<longrightarrow> cls lv = PlainEvent \<longrightarrow> Some (eventType lv) = scopeLeave z \<longrightarrow>
            getScope (snd (endInserting (z, h))) lv = Some sc \<and>
            (\<forall>l \<in> set ls. getScope (snd (endInserting (z, h))) l = Some sc) \<and>
            scopes (snd (endInserting (z, h))) =
              (scopes h)(sc := (scopes h sc)\<lparr>leaveEvent := Some lv\<rparr>))"
proof -
  let ?z = "z\<lparr>currentScope := None\<rparr>"
  let ?h1 = "fold (\<lambda>l. setScope l (Some sc)) ls h"
  have plain': "\<forall>l \<in> set ls. cls l = PlainEvent \<and> Some (eventType l) \<noteq> scopeLeave ?z"
    using plain by simp
  have run: "reconcile ?z cur (e # ls @ r) h = reconcile ?z (Some sc) r ?h1" for cur r
    using enter orphan reconcile_plain_run [OF plain', of "Some sc" r h] by simp
  have whole: "snd (endInserting (z, h)) = reconcile ?z None (e # ls @ rest) h"
    using queue by (simp add: endInserting_eq Let_def)
  have final: "snd (endInserting (z, h)) = reconcile ?z (Some sc) rest ?h1"
    using whole run [of None rest] by simp
  have untouched: "scopes ?h1 = scopes h"
    by (rule fold_setScope_scopes)
  have assoc: "\<forall>l \<in> set ls. getScope ?h1 l = Some sc"
    using plain by (simp add: getScope_def fold_setScope_scope_of)
  have ended: "scopes (snd (endInserting (z, h))) = scopes h \<and>
      (\<forall>l \<in> set ls. getScope (snd (endInserting (z, h))) l = Some sc)"
    if "rest = []"
    using final that untouched assoc by simp
  have closing: "snd (endInserting (z, h)) =
      reconcile ?z None r (setLeaveEvent sc lv (setScope lv (Some sc) ?h1))"
    if "rest = lv # r" "cls lv = PlainEvent" "Some (eventType lv) = scopeLeave z" for lv r
    using final that by simp
  have closed: "getScope (snd (endInserting (z, h))) lv = Some sc \<and>
      (\<forall>l \<in> set ls. getScope (snd (endInserting (z, h))) l = Some sc) \<and>
      scopes (snd (endInserting (z, h))) =
        (scopes h)(sc := (scopes h sc)\<lparr>leaveEvent := Some lv\<rparr>)"
    if r: "rest = [lv]" and lv: "cls lv = PlainEvent" "Some (eventType lv) = scopeLeave z" for lv
  proof -
    have eq: "snd (endInserting (z, h)) = setLeaveEvent sc lv (setScope lv (Some sc) ?h1)"
      using closing [OF r lv] by simp
    have a: "getScope (snd (endInserting (z, h))) lv = Some sc"
      unfolding eq using lv by (simp add: getScope_def setLeaveEvent_def setScope_def)
    have b: "\<forall>l \<in> set ls. getScope (snd (endInserting (z, h))) l = Some sc"
      unfolding eq using plain
      by (simp add: getScope_def setLeaveEvent_def setScope_def fold_setScope_scope_of)
    have c: "scopes (snd (endInserting (z, h))) =
        (scopes h)(sc := (scopes h sc)\<lparr>leaveEvent := Some lv\<rparr>)"
      unfolding eq using untouched by (simp add: setLeaveEvent_def setScope_def)
    from a b c show ?thesis by blast
  qed
  from final run [of _ rest] untouched assoc ended closing closed show ?thesis
    by blast
qed

theorem orphan_scope_is_cursor_witness:
  "pendingOutOfOrderEvents index10 = mk_enter 7 2 3 2 # [mk_leaf 7 3 4] @ [mk_leave 7 4 5] \<and>
   cls (mk_enter 7 2 3 2) = ScopeEvent 2 \<and>
   findEnclosingScope index10 heap10 (time (mk_enter 7 2 3 2)) = None \<and>
   cls (mk_leaf 7 3 4) = PlainEvent \<and> Some (eventType (mk_leaf 7 3 4)) \<noteq> scopeLeave index10 \<and>
   cls (mk_leave 7 4 5) = PlainEvent \<and> Some (eventType (mk_leave 7 4 5)) = scopeLeave index10 \<and>
   getScope (snd (endInserting (index10, heap10))) (mk_leave 7 4 5) = Some 2 \<and>
   getScope (snd (endInserting (index10, heap10))) (mk_leaf 7 3 4) = Some 2 \<and>
   scopes (snd (endInserting (index10, heap10))) =
     (scopes heap10)(2 := (scopes heap10 2)\<lparr>leaveEvent := Some (mk_leave 7 4 5)\<rparr>)"
proof -
  have hyps: "pendingOutOfOrderEvents index10 = mk_enter 7 2 3 2 # [mk_leaf 7 3 4] @ [mk_leave 7 4 5]"
    "cls (mk_enter 7 2 3 2) = ScopeEvent 2"
    "findEnclosingScope index10 heap10 (time (mk_enter 7 2 3 2)) = None"
    "\<forall>l \<in> set [mk_leaf 7 3 4]. cls l = PlainEvent \<and> Some (eventType l) \<noteq> scopeLeave index10"
    by (simp_all add: example_defs op_defs)
  have more: "cls (mk_leaf 7 3 4) = PlainEvent"
    "Some (eventType (mk_leaf 7 3 4)) \<noteq> scopeLeave index10"
    "cls (mk_leave 7 4 5) = PlainEvent" "Some (eventType (mk_leave 7 4 5)) = scopeLeave index10"
    by (simp_all add: example_defs)
  have "getScope (snd (endInserting (index10, heap10))) (mk_leave 7 4 5) = Some 2 \<and>
      (\<forall>l \<in> set [mk_leaf 7 3 4]. getScope (snd (endInserting (index10, heap10))) l = Some 2) \<and>
      scopes (snd (endInserting (index10, heap10))) =
        (scopes heap10)(2 := (scopes heap10 2)\<lparr>leaveEvent := Some (mk_leave 7 4 5)\<rparr>)"
    using orphan_scope_is_cursor [OF hyps] more(3,4) by blast
  with hyps(1-3) more show ?thesis
    by simp
qed

subsection \<open>Events that arrive late\<close>

text \<open>
  Claim C1, amended. In the batch enter A (time 0, scope 1), enter B (time 5, scope 2),
  leave (time 2) on a fresh index the leave is queued, since \<open>lastAddEventTime\<close> has
  reached 5. endInserting gives it the local cursor of its loop, which is \<^verbatim>\<open>null\<close>
  because no queued scope enter comes before it: the scope of the leave is \<^verbatim>\<open>null\<close> and
  neither A nor B gets a leave event. B stays the child of A.
\<close>

theorem late_leave_gets_no_scope:
  "pendingOutOfOrderEvents (fst (insertEvents
       [mk_enter 7 1 0 1, mk_enter 7 2 5 2, mk_leave 7 3 2] (beginInserting index0, empty_heap))) =
     [mk_leave 7 3 2] \<and>
   getScope (snd (batch [mk_enter 7 1 0 1, mk_enter 7 2 5 2, mk_leave 7 3 2] (index0, empty_heap)))
     (mk_leave 7 3 2) = None \<and>
   leaveEvent (scopes (snd (batch [mk_enter 7 1 0 1, mk_enter 7 2 5 2, mk_leave 7 3 2]
     (index0, empty_heap))) 1) = None \<and>
   leaveEvent (scopes (snd (batch [mk_enter 7 1 0 1, mk_enter 7 2 5 2, mk_leave 7 3 2]
     (index0, empty_heap))) 2) = None \<and>
   parent (scopes (snd (batch [mk_enter 7 1 0 1, mk_enter 7 2 5 2, mk_leave 7 3 2]
     (index0, empty_heap))) 2) = Some 1"
  by (simp add: op_defs example_defs)

text \<open>
  Claim C1 as stated has the queued leave resolved against the scope that encloses time
  2, so that A receives it as its leave event. A does not.
\<close>

theorem late_leave_not_given_to_enclosing_scope:
  "pendingOutOfOrderEvents (fst (insertEvents
       [mk_enter 7 1 0 1, mk_enter 7 2 5 2, mk_leave 7 3 2] (beginInserting index0, empty_heap))) =
     [mk_leave 7 3 2] \<and>
   leaveEvent (scopes (snd (batch [mk_enter 7 1 0 1, mk_enter 7 2 5 2, mk_leave 7 3 2]
     (index0, empty_heap))) 1) \<noteq> Some (mk_leave 7 3 2)"
  by (simp add: op_defs example_defs)

lemma beginInserting_fields:
  "events (beginInserting z) = events z \<and> index_zone (beginInserting z) = index_zone z \<and>
   pendingOutOfOrderEvents (beginInserting z) = pendingOutOfOrderEvents z \<and>
   lastAddEventTime (beginInserting z) = getLastEventTime z \<and>
   currentScope (beginInserting z) = None \<and> insertingEvents (beginInserting z)"
  by (simp add: beginInserting_eq EventList_beginInserting_def Let_def getLastEventTime_def)

text \<open>
  Claim C2, amended. Take a batch on an index with an empty queue in which exactly one
  event \<open>e\<close> is out of order, and let \<open>(z, h)\<close> be the index and the store after the
  insertEvent calls. Then \<open>e\<close> is the one queued event, and endInserting treats it by its
  kind. The scope of a scope enter becomes the last child of the scope that
  findEnclosingScope answers for the time of \<open>e\<close>, with that scope as its parent; when
  there is no such scope the store is left as it is. Any other event, leave or plain,
  gets the scope \<^verbatim>\<open>null\<close> and no scope is changed, whether or not a scope encloses its
  time.
\<close>

theorem single_deferred_event:
  assumes empty: "pendingOutOfOrderEvents z0 = []"
    and single: "deferred (index_zone z0) (getLastEventTime z0) es = [e]"
    and run: "insertEvents es (beginInserting z0, h0) = (z, h)"
  shows "pendingOutOfOrderEvents z = [e] \<and>
         snd (batch es (z0, h0)) =
           (case cls e of
              ScopeEvent sc \<Rightarrow>
                (case findEnclosingScope z h (time e) of
                   Some p \<Rightarrow> addChild p sc h
                 | None \<Rightarrow> h)
            | PlainEvent \<Rightarrow> setScope e None h) \<and>
         (\<forall>sc p. cls e = ScopeEvent sc \<longrightarrow> findEnclosingScope z h (time e) = Some p \<longrightarrow>
            parent (scopes (snd (batch es (z0, h0))) sc) = Some p \<and>
            children (scopes (snd (batch es (z0, h0))) p) = children (scopes h p) @ [sc]) \<and>
         (cls e = PlainEvent \<longrightarrow>
            getScope (snd (batch es (z0, h0))) e = None \<and>
            scopes (snd (batch es (z0, h0))) = scopes h)"
proof -
  have pend: "pendingOutOfOrderEvents z = [e]"
    using insertEvents_pending [of es "beginInserting z0" h0] run empty single
      beginInserting_fields [of z0]
    by simp
  have final: "snd (batch es (z0, h0)) = reconcile (z\<lparr>currentScope := None\<rparr>) None [e] h"
    using run pend by (simp add: batch_def endInserting_eq Let_def)
  have eq: "snd (batch es (z0, h0)) =
           (case cls e of
              ScopeEvent sc \<Rightarrow>
                (case findEnclosingScope z h (time e) of
                   Some p \<Rightarrow> addChild p sc h
                 | None \<Rightarrow> h)
            | PlainEvent \<Rightarrow> setScope e None h)"
    unfolding final by (simp split: event_class.splits option.splits)
  have attached: "parent (scopes (snd (batch es (z0, h0))) sc) = Some p \<and>
            children (scopes (snd (batch es (z0, h0))) p) = children (scopes h p) @ [sc]"
    if "cls e = ScopeEvent sc" "findEnclosingScope z h (time e) = Some p" for sc p
    unfolding eq using that by (simp add: addChild_def Let_def)
  have plain: "getScope (snd (batch es (z0, h0))) e = None \<and>
            scopes (snd (batch es (z0, h0))) = scopes h"
    if "cls e = PlainEvent"
    unfolding eq using that by (simp add: getScope_def setScope_def)
  from pend eq attached plain show ?thesis by blast
qed

theorem single_deferred_event_witness:
  "pendingOutOfOrderEvents index0 = [] \<and>
   deferred (index_zone index0) (getLastEventTime index0)
     [mk_enter 7 1 0 1, mk_leave 7 2 10, mk_enter 7 3 3 3] = [mk_enter 7 3 3 3] \<and>
   cls (mk_enter 7 3 3 3) = ScopeEvent 3 \<and>
   findEnclosingScope
     (fst (insertEvents [mk_enter 7 1 0 1, mk_leave 7 2 10, mk_enter 7 3 3 3]
        (beginInserting index0, empty_heap)))
     (snd (insertEvents [mk_enter 7 1 0 1, mk_leave 7 2 10, mk_enter 7 3 3 3]
        (beginInserting index0, empty_heap)))
     (time (mk_enter 7 3 3 3)) = Some 1 \<and>
   parent (scopes (snd (batch [mk_enter 7 1 0 1, mk_leave 7 2 10, mk_enter 7 3 3 3]
     (index0, empty_heap))) 3) = Some 1 \<and>
   children (scopes (snd (batch [mk_enter 7 1 0 1, mk_leave 7 2 10, mk_enter 7 3 3 3]
     (index0, empty_heap))) 1) = [3]"
proof -
  let ?es = "[mk_enter 7 1 0 1, mk_leave 7 2 10, mk_enter 7 3 3 3]"
  let ?s = "insertEvents ?es (beginInserting index0, empty_heap)"
  have hyps: "pendingOutOfOrderEvents index0 = []"
    "deferred (index_zone index0) (getLastEventTime index0) ?es = [mk_enter 7 3 3 3]"
    "?s = (fst ?s, snd ?s)"
    by (simp_all add: example_defs getLastEventTime_def)
  have more: "cls (mk_enter 7 3 3 3) = ScopeEvent 3"
    "findEnclosingScope (fst ?s) (snd ?s) (time (mk_enter 7 3 3 3)) = Some 1"
    "children (scopes (snd ?s) 1) = []"
    by (simp_all add: example_defs op_defs)
  have "parent (scopes (snd (batch ?es (index0, empty_heap))) 3) = Some 1 \<and>
      children (scopes (snd (batch ?es (index0, empty_heap))) 1) =
        children (scopes (snd ?s) 1) @ [3]"
    using single_deferred_event [OF hyps] more(1,2) by blast
  then have "parent (scopes (snd (batch ?es (index0, empty_heap))) 3) = Some 1 \<and>
      children (scopes (snd (batch ?es (index0, empty_heap))) 1) = [3]"
    by (simp only: more(3) append_Nil)
  with hyps(1,2) more(1,2) show ?thesis
    by blast
qed

text \<open>
  Claim C2 as stated attaches every single late event to the scope that encloses its
  time. In the batch enter (time 0, scope 1), leave (time 10), plain event (time 3) the
  plain event is the one queued event and scope 1 encloses time 3, but the event does not
  get scope 1.
\<close>

theorem late_plain_event_ignores_enclosing_scope:
  "deferred (index_zone index0) (getLastEventTime index0)
     [mk_enter 7 1 0 1, mk_leave 7 2 10, mk_leaf 7 3 3] = [mk_leaf 7 3 3] \<and>
   findEnclosingScope
     (fst (insertEvents [mk_enter 7 1 0 1, mk_leave 7 2 10, mk_leaf 7 3 3]
        (beginInserting index0, empty_heap)))
     (snd (insertEvents [mk_enter 7 1 0 1, mk_leave 7 2 10, mk_leaf 7 3 3]
        (beginInserting index0, empty_heap)))
     (time (mk_leaf 7 3 3)) = Some 1 \<and>
   getScope (snd (batch [mk_enter 7 1 0 1, mk_leave 7 2 10, mk_leaf 7 3 3] (index0, empty_heap)))
     (mk_leaf 7 3 3) \<noteq> Some 1"
  by (simp add: example_defs op_defs)

subsection \<open>Delegation to the base class\<close>

text \<open>
  Claim C3, amended. Whatever the base methods are: beginInserting calls the base
  beginInserting first, on the index as it was, and does its own work on what the base
  method returns. insertEvent, for an event of the index's zone, does its own work first
  and calls the base insertEvent last, on the index that work has produced; for an event
  of another zone it calls nothing, index and store are unchanged. endInserting does its
  own work first and calls the base endInserting last, on the index with the cursor
  reset and the queue emptied. With the base class as modelled, the index is in batch
  mode after beginInserting and out of it after endInserting, and an event of the zone is
  the last of the list after insertEvent.
\<close>

theorem delegation_to_base:
  "beginInserting_with base_begin z =
     (base_begin z)\<lparr>currentScope := None,
        lastAddEventTime := getLastEventTime ((base_begin z)\<lparr>currentScope := None\<rparr>)\<rparr> \<and>
   (zone e = index_zone z \<longrightarrow>
      insertEvent_with base_insert e (z, h) =
        (base_insert e (fst (classify e (z, h))), snd (classify e (z, h)))) \<and>
   (zone e \<noteq> index_zone z \<longrightarrow> insertEvent_with base_insert e (z, h) = (z, h)) \<and>
   endInserting_with base_end (z, h) =
     (base_end (z\<lparr>currentScope := None, pendingOutOfOrderEvents := []\<rparr>),
      reconcile (z\<lparr>currentScope := None\<rparr>) None (pendingOutOfOrderEvents z) h) \<and>
   insertingEvents (beginInserting z) \<and>
   (zone e = index_zone z \<longrightarrow> events (fst (insertEvent e (z, h))) = events z @ [e]) \<and>
   \<not> insertingEvents (fst (endInserting (z, h)))"
proof -
  have b: "beginInserting_with base_begin z =
     (base_begin z)\<lparr>currentScope := None,
        lastAddEventTime := getLastEventTime ((base_begin z)\<lparr>currentScope := None\<rparr>)\<rparr>"
    by (simp add: beginInserting_with_def Let_def)
  have i: "insertEvent_with base_insert e (z, h) =
        (base_insert e (fst (classify e (z, h))), snd (classify e (z, h)))"
    if "zone e = index_zone z"
    using that by (cases "classify e (z, h)") (simp add: insertEvent_with_def)
  have o: "insertEvent_with base_insert e (z, h) = (z, h)" if "zone e \<noteq> index_zone z"
    using that by (simp add: insertEvent_with_def)
  have f: "endInserting_with base_end (z, h) =
     (base_end (z\<lparr>currentScope := None, pendingOutOfOrderEvents := []\<rparr>),
      reconcile (z\<lparr>currentScope := None\<rparr>) None (pendingOutOfOrderEvents z) h)"
    by (simp add: endInserting_with_def Let_def)
  have b': "insertingEvents (beginInserting z)"
    by (simp add: beginInserting_fields)
  have i': "events (fst (insertEvent e (z, h))) = events z @ [e]" if "zone e = index_zone z"
    using that by (simp add: insertEvent_events)
  have f': "\<not> insertingEvents (fst (endInserting (z, h)))"
    by (simp add: endInserting_eq Let_def EventList_endInserting_def)
  from b i o f b' i' f' show ?thesis by blast
qed

theorem delegation_to_base_witness:
  "zone (mk_leaf 7 3 4) = index_zone index5 \<and>
   insertEvent (mk_leaf 7 3 4) (index5, heap5) =
     (EventList_insertEvent (mk_leaf 7 3 4) (fst (classify (mk_leaf 7 3 4) (index5, heap5))),
      snd (classify (mk_leaf 7 3 4) (index5, heap5))) \<and>
   zone (mk_leaf 8 4 4) \<noteq> index_zone index5 \<and>
   insertEvent (mk_leaf 8 4 4) (index5, heap5) = (index5, heap5) \<and>
   beginInserting index5 =
     (EventList_beginInserting index5)\<lparr>currentScope := None,
        lastAddEventTime :=
          getLastEventTime ((EventList_beginInserting index5)\<lparr>currentScope := None\<rparr>)\<rparr> \<and>
   endInserting (index5, heap5) =
     (EventList_endInserting (index5\<lparr>currentScope := None, pendingOutOfOrderEvents := []\<rparr>),
      reconcile (index5\<lparr>currentScope := None\<rparr>) None (pendingOutOfOrderEvents index5) heap5)"
proof -
  have hyps: "zone (mk_leaf 7 3 4) = index_zone index5" "zone (mk_leaf 8 4 4) \<noteq> index_zone index5"
    by (simp_all add: example_defs)
  from delegation_to_base
      [where base_begin = EventList_beginInserting and base_insert = EventList_insertEvent
        and base_end = EventList_endInserting and z = index5 and e = "mk_leaf 7 3 4"
        and h = heap5]
    delegation_to_base
      [where base_begin = EventList_beginInserting and base_insert = EventList_insertEvent
        and base_end = EventList_endInserting and z = index5 and e = "mk_leaf 8 4 4"
        and h = heap5]
    hyps
  show ?thesis
    unfolding beginInserting_def insertEvent_def endInserting_def by blast
qed

text \<open>
  Claim C3 as stated fails twice. It has the base insertEvent run for every event,
  whatever its zone: for an event of zone 8 the index of zone 7 is unchanged and its list
  still empty, while the base insertEvent would have put the event into the list. And it
  has every base method run after the work of the index: in beginInserting the base
  method runs before the cursor is reset, so a base method that enters batch mode only
  when it finds a scope open does enter it on an index with scope 1 open, which it would
  not after the reset.
\<close>

theorem other_zone_event_never_reaches_base:
  "insertEvent (mk_leaf 8 1 4) (index0, empty_heap) = (index0, empty_heap) \<and>
   events (fst (insertEvent (mk_leaf 8 1 4) (index0, empty_heap))) = [] \<and>
   events (EventList_insertEvent (mk_leaf 8 1 4) index0) = [mk_leaf 8 1 4] \<and>
   currentScope index5 = Some 1 \<and>
   insertingEvents (beginInserting_with open_scope_probe index5) \<and>
   \<not> insertingEvents (open_scope_probe (index5\<lparr>currentScope := None\<rparr>))"
  by (simp add: example_defs op_defs beginInserting_with_def open_scope_probe_def)

end
